theory Spec2Isabelle
  imports Main
begin

section \<open>The AssetTokenization contract (contracts/token-managemnt.sol)\<close>

text \<open>
  A shallow embedding of the Solidity contract \<^verbatim>\<open>AssetTokenization\<close>. The storage of the
  contract is a record that every function takes and returns; a \<^verbatim>\<open>revert\<close> (a failed
  \<^verbatim>\<open>require\<close>, a custom error, an arithmetic panic) is the left injection of a sum,
  and it carries no state: the EVM discards every write of a reverted call.

  \<^verbatim>\<open>address\<close> and \<^verbatim>\<open>uint256\<close> are natural numbers; \<^verbatim>\<open>address(0)\<close> is \<open>0\<close>. The only
  checked arithmetic of the contract is \<^verbatim>\<open>_nextTokenId++\<close>, whose overflow panic is written
  out; the unchecked balance arithmetic of ERC721 is written modulo \<open>2 ^ 256\<close>.
  \<^verbatim>\<open>msg.sender\<close> and \<^verbatim>\<open>block.timestamp\<close> are the parameters \<open>sender\<close> and \<open>now\<close>.
  Events change no storage and are left out.
\<close>

type_synonym address = nat
type_synonym uint256 = nat

definition UINT256_MAX :: uint256 where
  "UINT256_MAX = 2 ^ 256 - 1"

subsection \<open>Data\<close>

text \<open>\<^verbatim>\<open>enum AssetStatus { Pending, Active, Frozen, Delisted }\<close> (line 14).\<close>

datatype AssetStatus = Pending | Active | Frozen | Delisted

text \<open>\<^verbatim>\<open>struct AssetInfo\<close> (lines 17-24).\<close>

record AssetInfo =
  metadataURI :: string
  isCompliant :: bool
  status :: AssetStatus
  valuation :: uint256
  registrationDate :: uint256
  assetType :: string

text \<open>
  \<^verbatim>\<open>struct TransferRecord { address from; address to; uint256 timestamp; uint256 price; }\<close>
  (lines 27-32); the fields carry the prefix \<open>rec_\<close>.
\<close>

record TransferRecord =
  rec_from :: address
  rec_to :: address
  rec_timestamp :: uint256
  rec_price :: uint256

text \<open>
  The role identifiers: \<^verbatim>\<open>DEFAULT_ADMIN_ROLE\<close> of AccessControl and the three
  \<^verbatim>\<open>keccak256\<close> constants of lines 9-11.
\<close>

datatype role = DEFAULT_ADMIN_ROLE | ADMIN_ROLE | MINTER_ROLE | COMPLIANCE_ROLE

text \<open>The two values of \<^verbatim>\<open>ReentrancyGuard._status\<close>.\<close>

datatype guard = NOT_ENTERED | ENTERED

text \<open>
  The storage: the mappings of ERC721 (\<^verbatim>\<open>_owners\<close>, \<^verbatim>\<open>_balances\<close>, \<^verbatim>\<open>_tokenApprovals\<close>,
  \<^verbatim>\<open>_operatorApprovals\<close>), of AccessControl (\<^verbatim>\<open>_roles[role].hasRole\<close>), the status word
  of ReentrancyGuard, and the contract's own variables (lines 34-38). A Solidity mapping
  is total, with the zero value at every key never written.

  The last field, \<open>assigned\<close>, is not a storage slot. It is a history variable of the
  model: the identifiers in the order in which \<^verbatim>\<open>_nextTokenId++\<close> (line 81) handed them
  out. No function reads it, and a revert discards its entries with the rest of the
  writes.
\<close>

record contract =
  owners :: "uint256 \<Rightarrow> address"
  balances :: "address \<Rightarrow> uint256"
  tokenApprovals :: "uint256 \<Rightarrow> address"
  operatorApprovals :: "address \<Rightarrow> address \<Rightarrow> bool"
  roles :: "role \<Rightarrow> address \<Rightarrow> bool"
  reentrancy_status :: guard
  assetDetails :: "uint256 \<Rightarrow> AssetInfo"
  transferHistory :: "uint256 \<Rightarrow> TransferRecord list"
  verifiedUsers :: "address \<Rightarrow> bool"
  nextTokenId :: uint256
  assigned :: "uint256 list"

text \<open>
  The reverts: the custom errors of the OpenZeppelin base contracts, \<open>Require m\<close> for a
  failed \<^verbatim>\<open>require(cond, m)\<close>, and \<open>Panic\<close> for the checked-arithmetic panic.
\<close>

datatype error =
    AccessControlUnauthorizedAccount address role
  | AccessControlBadConfirmation
  | ReentrancyGuardReentrantCall
  | ERC721InvalidReceiver address
  | ERC721InvalidSender address
  | ERC721NonexistentToken uint256
  | ERC721IncorrectOwner address uint256 address
  | ERC721InsufficientApproval address uint256
  | ERC721InvalidApprover address
  | ERC721InvalidOperator address
  | Require string
  | Panic nat

text \<open>
  What the recipient's \<^verbatim>\<open>onERC721Received\<close> hook answers in the end when a safe mint or
  a safe transfer calls it: \<open>Accepts\<close> (the recipient has no code, or returns the
  selector), \<open>Refuses\<close> (another return value, or a revert without a reason) or a revert
  with a reason, which is passed on. What the recipient does to this contract before it
  answers is the external call of the next paragraph.
\<close>

datatype receiver_reply = Accepts | Refuses | RevertsWith string

subsection \<open>The OpenZeppelin base contracts\<close>

text \<open>
  The contract imports ERC721, AccessControl and ReentrancyGuard of OpenZeppelin
  Contracts (lines 4-6). They are a dependency, not files of the repository; the
  definitions of this subsection follow the library at version 5, the version whose
  \<^verbatim>\<open>_update(to, tokenId, auth)\<close> hook the contract overrides.
\<close>

definition hasRole :: "role \<Rightarrow> address \<Rightarrow> contract \<Rightarrow> bool" where
  "hasRole r account s = roles s r account"

definition internal_grantRole :: "role \<Rightarrow> address \<Rightarrow> contract \<Rightarrow> contract" where
  "internal_grantRole r account s =
     (if \<not> hasRole r account s then s\<lparr>roles := (roles s)(r := (roles s r)(account := True))\<rparr>
      else s)"

definition internal_revokeRole :: "role \<Rightarrow> address \<Rightarrow> contract \<Rightarrow> contract" where
  "internal_revokeRole r account s =
     (if hasRole r account s then s\<lparr>roles := (roles s)(r := (roles s r)(account := False))\<rparr>
      else s)"

text \<open>\<^verbatim>\<open>getRoleAdmin\<close>: no role has its admin changed, so it is the default one.\<close>

definition getRoleAdmin :: "role \<Rightarrow> role" where
  "getRoleAdmin r = DEFAULT_ADMIN_ROLE"

definition grantRole :: "address \<Rightarrow> role \<Rightarrow> address \<Rightarrow> contract \<Rightarrow> error + contract" where
  "grantRole sender r account s =
     (if \<not> hasRole (getRoleAdmin r) sender s
      then Inl (AccessControlUnauthorizedAccount sender (getRoleAdmin r))
      else Inr (internal_grantRole r account s))"

definition revokeRole :: "address \<Rightarrow> role \<Rightarrow> address \<Rightarrow> contract \<Rightarrow> error + contract" where
  "revokeRole sender r account s =
     (if \<not> hasRole (getRoleAdmin r) sender s
      then Inl (AccessControlUnauthorizedAccount sender (getRoleAdmin r))
      else Inr (internal_revokeRole r account s))"

definition renounceRole :: "address \<Rightarrow> role \<Rightarrow> address \<Rightarrow> contract \<Rightarrow> error + contract" where
  "renounceRole sender r callerConfirmation s =
     (if callerConfirmation \<noteq> sender then Inl AccessControlBadConfirmation
      else Inr (internal_revokeRole r callerConfirmation s))"

text \<open>The two halves of the \<^verbatim>\<open>nonReentrant\<close> modifier.\<close>

definition nonReentrantBefore :: "contract \<Rightarrow> error + contract" where
  "nonReentrantBefore s =
     (if reentrancy_status s = ENTERED then Inl ReentrancyGuardReentrantCall
      else Inr (s\<lparr>reentrancy_status := ENTERED\<rparr>))"

definition nonReentrantAfter :: "contract \<Rightarrow> contract" where
  "nonReentrantAfter s = s\<lparr>reentrancy_status := NOT_ENTERED\<rparr>"

text \<open>ERC721: \<^verbatim>\<open>_ownerOf\<close>, \<^verbatim>\<open>_isAuthorized\<close>, \<^verbatim>\<open>_requireOwned\<close>.\<close>

definition internal_ownerOf :: "uint256 \<Rightarrow> contract \<Rightarrow> address" where
  "internal_ownerOf tokenId s = owners s tokenId"

definition internal_isAuthorized :: "address \<Rightarrow> address \<Rightarrow> uint256 \<Rightarrow> contract \<Rightarrow> bool" where
  "internal_isAuthorized owner spender tokenId s =
     (spender \<noteq> 0 \<and>
      (owner = spender \<or> operatorApprovals s owner spender \<or> tokenApprovals s tokenId = spender))"

definition internal_requireOwned :: "uint256 \<Rightarrow> contract \<Rightarrow> error + address" where
  "internal_requireOwned tokenId s =
     (if internal_ownerOf tokenId s = 0 then Inl (ERC721NonexistentToken tokenId)
      else Inr (internal_ownerOf tokenId s))"

text \<open>
  \<^verbatim>\<open>ERC721._update\<close>, the function the contract reaches as \<^verbatim>\<open>super._update\<close>: the
  operator check when \<open>auth\<close> is not zero (\<^verbatim>\<open>_checkAuthorized\<close>), then the approval of the
  token is cleared, the two balances move (unchecked) and the owner is written. It
  returns the previous owner.
\<close>

definition ERC721_update ::
  "address \<Rightarrow> uint256 \<Rightarrow> address \<Rightarrow> contract \<Rightarrow> error + (address \<times> contract)" where
  "ERC721_update to tokenId auth s =
     (let from = internal_ownerOf tokenId s in
      if auth \<noteq> 0 \<and> \<not> internal_isAuthorized from auth tokenId s
      then (if from = 0 then Inl (ERC721NonexistentToken tokenId)
            else Inl (ERC721InsufficientApproval auth tokenId))
      else
        let s1 = (if from \<noteq> 0
                  then s\<lparr>tokenApprovals := (tokenApprovals s)(tokenId := 0),
                         balances := (balances s)(from := (balances s from + UINT256_MAX) mod 2 ^ 256)\<rparr>
                  else s);
            s2 = (if to \<noteq> 0
                  then s1\<lparr>balances := (balances s1)(to := (balances s1 to + 1) mod 2 ^ 256)\<rparr>
                  else s1)
        in Inr (from, s2\<lparr>owners := (owners s2)(tokenId := to)\<rparr>))"

text \<open>\<^verbatim>\<open>approve\<close> (through \<^verbatim>\<open>_approve(to, tokenId, _msgSender(), true)\<close>) and
  \<^verbatim>\<open>setApprovalForAll\<close>.\<close>

definition approve :: "address \<Rightarrow> address \<Rightarrow> uint256 \<Rightarrow> contract \<Rightarrow> error + contract" where
  "approve sender to tokenId s =
     (case internal_requireOwned tokenId s of
        Inl e \<Rightarrow> Inl e
      | Inr owner \<Rightarrow>
          if sender \<noteq> 0 \<and> owner \<noteq> sender \<and> \<not> operatorApprovals s owner sender
          then Inl (ERC721InvalidApprover sender)
          else Inr (s\<lparr>tokenApprovals := (tokenApprovals s)(tokenId := to)\<rparr>))"

definition setApprovalForAll :: "address \<Rightarrow> address \<Rightarrow> bool \<Rightarrow> contract \<Rightarrow> error + contract" where
  "setApprovalForAll sender operator approved s =
     (if operator = 0 then Inl (ERC721InvalidOperator operator)
      else Inr (s\<lparr>operatorApprovals :=
                   (operatorApprovals s)(sender := (operatorApprovals s sender)(operator := approved))\<rparr>))"

definition checkOnERC721Received :: "receiver_reply \<Rightarrow> address \<Rightarrow> error + unit" where
  "checkOnERC721Received reply to =
     (case reply of
        Accepts \<Rightarrow> Inr ()
      | Refuses \<Rightarrow> Inl (ERC721InvalidReceiver to)
      | RevertsWith m \<Rightarrow> Inl (Require m))"

subsection \<open>The contract\<close>

text \<open>
  The override of \<^verbatim>\<open>_update\<close> (lines 169-196). For a token that has an owner it requires
  the asset compliant, then Active, then the recipient verified, and it appends a
  zero-price record when the history is empty or its last record names another
  recipient. Then \<^verbatim>\<open>super._update\<close>.
\<close>

definition internal_update ::
  "uint256 \<Rightarrow> address \<Rightarrow> uint256 \<Rightarrow> address \<Rightarrow> contract \<Rightarrow> error + (address \<times> contract)" where
  "internal_update now to tokenId auth s =
     (let from = internal_ownerOf tokenId s in
      if from \<noteq> 0 then
        (let info = assetDetails s tokenId in
         if \<not> isCompliant info then Inl (Require ''Asset not compliant'')
         else if status info \<noteq> Active then Inl (Require ''Asset not active'')
         else if \<not> verifiedUsers s to then Inl (Require ''Recipient not verified'')
         else
           let h = transferHistory s tokenId;
               s1 = (if length h = 0 \<or> rec_to (h ! (length h - 1)) \<noteq> to
                     then s\<lparr>transferHistory := (transferHistory s)(tokenId :=
                            h @ [\<lparr>rec_from = from, rec_to = to, rec_timestamp = now, rec_price = 0\<rparr>])\<rparr>
                     else s)
           in ERC721_update to tokenId auth s1)
      else ERC721_update to tokenId auth s)"

text \<open>
  ERC721's \<^verbatim>\<open>transferFrom\<close>, \<^verbatim>\<open>safeTransferFrom\<close>, \<^verbatim>\<open>_transfer\<close>, \<^verbatim>\<open>_mint\<close> and
  \<^verbatim>\<open>_safeMint\<close>. They call \<^verbatim>\<open>_update\<close> virtually, so they reach the override.

  \<^verbatim>\<open>safeTransferFrom\<close> and \<^verbatim>\<open>_safeMint\<close> end with the external call of the recipient's
  \<^verbatim>\<open>onERC721Received\<close>. The recipient is foreign code: before it answers it can call any
  function of this contract, on the storage as the transfer or the mint left it. The
  parameter \<open>ext\<close> is that external call as a whole: from the storage it is entered
  with, either the storage it leaves or the revert it ends in. The hooks that
  \<open>ext\<close> ranges over are defined with the sequences of calls below
  (\<open>receiver_hook\<close>).
\<close>

definition transferFrom ::
  "address \<Rightarrow> uint256 \<Rightarrow> address \<Rightarrow> address \<Rightarrow> uint256 \<Rightarrow> contract \<Rightarrow> error + contract" where
  "transferFrom sender now from to tokenId s =
     (if to = 0 then Inl (ERC721InvalidReceiver 0)
      else case internal_update now to tokenId sender s of
        Inl e \<Rightarrow> Inl e
      | Inr (previousOwner, s') \<Rightarrow>
          if previousOwner \<noteq> from then Inl (ERC721IncorrectOwner from tokenId previousOwner)
          else Inr s')"

definition safeTransferFrom ::
  "address \<Rightarrow> uint256 \<Rightarrow> (contract \<Rightarrow> error + contract) \<Rightarrow> address \<Rightarrow> address \<Rightarrow> uint256
     \<Rightarrow> contract \<Rightarrow> error + contract" where
  "safeTransferFrom sender now ext from to tokenId s =
     (case transferFrom sender now from to tokenId s of
        Inl e \<Rightarrow> Inl e
      | Inr s' \<Rightarrow> ext s')"

definition internal_transfer ::
  "uint256 \<Rightarrow> address \<Rightarrow> address \<Rightarrow> uint256 \<Rightarrow> contract \<Rightarrow> error + contract" where
  "internal_transfer now from to tokenId s =
     (if to = 0 then Inl (ERC721InvalidReceiver 0)
      else case internal_update now to tokenId 0 s of
        Inl e \<Rightarrow> Inl e
      | Inr (previousOwner, s') \<Rightarrow>
          if previousOwner = 0 then Inl (ERC721NonexistentToken tokenId)
          else if previousOwner \<noteq> from then Inl (ERC721IncorrectOwner from tokenId previousOwner)
          else Inr s')"

definition internal_mint :: "uint256 \<Rightarrow> address \<Rightarrow> uint256 \<Rightarrow> contract \<Rightarrow> error + contract" where
  "internal_mint now to tokenId s =
     (if to = 0 then Inl (ERC721InvalidReceiver 0)
      else case internal_update now to tokenId 0 s of
        Inl e \<Rightarrow> Inl e
      | Inr (previousOwner, s') \<Rightarrow>
          if previousOwner \<noteq> 0 then Inl (ERC721InvalidSender 0) else Inr s')"

definition internal_safeMint ::
  "uint256 \<Rightarrow> (contract \<Rightarrow> error + contract) \<Rightarrow> address \<Rightarrow> uint256 \<Rightarrow> contract
     \<Rightarrow> error + contract" where
  "internal_safeMint now ext to tokenId s =
     (case internal_mint now to tokenId s of
        Inl e \<Rightarrow> Inl e
      | Inr s' \<Rightarrow> ext s')"

text \<open>
  The constructor (lines 60-70): the deployer receives the four roles and is marked
  verified. Every other storage slot is zero; the guard starts \<open>NOT_ENTERED\<close>.
\<close>

definition empty_AssetInfo :: AssetInfo where
  "empty_AssetInfo =
     \<lparr>metadataURI = [], isCompliant = False, status = Pending, valuation = 0,
      registrationDate = 0, assetType = []\<rparr>"

definition empty_storage :: contract where
  "empty_storage =
     \<lparr>owners = (\<lambda>_. 0), balances = (\<lambda>_. 0), tokenApprovals = (\<lambda>_. 0),
      operatorApprovals = (\<lambda>_ _. False), roles = (\<lambda>_ _. False),
      reentrancy_status = NOT_ENTERED, assetDetails = (\<lambda>_. empty_AssetInfo),
      transferHistory = (\<lambda>_. []), verifiedUsers = (\<lambda>_. False), nextTokenId = 0,
      assigned = []\<rparr>"

definition constructor :: "address \<Rightarrow> contract" where
  "constructor sender =
     (let s1 = internal_grantRole DEFAULT_ADMIN_ROLE sender empty_storage;
          s2 = internal_grantRole ADMIN_ROLE sender s1;
          s3 = internal_grantRole MINTER_ROLE sender s2;
          s4 = internal_grantRole COMPLIANCE_ROLE sender s3
      in s4\<lparr>verifiedUsers := (verifiedUsers s4)(sender := True)\<rparr>)"

text \<open>
  \<^verbatim>\<open>registerAsset\<close> (lines 73-95): the Minter role, the verified recipient, the
  post-increment of \<^verbatim>\<open>_nextTokenId\<close> (checked: it panics at the largest value), the safe
  mint with its external call, and then the details of the new asset, written on the
  storage the external call left. It returns the identifier.
\<close>

definition registerAsset ::
  "address \<Rightarrow> uint256 \<Rightarrow> (contract \<Rightarrow> error + contract) \<Rightarrow> address \<Rightarrow> string \<Rightarrow> string
     \<Rightarrow> uint256 \<Rightarrow> contract \<Rightarrow> error + (uint256 \<times> contract)" where
  "registerAsset sender now ext to uri atype val s =
     (if \<not> hasRole MINTER_ROLE sender s
      then Inl (AccessControlUnauthorizedAccount sender MINTER_ROLE)
      else if \<not> verifiedUsers s to then Inl (Require ''Recipient not verified'')
      else if nextTokenId s = UINT256_MAX then Inl (Panic 17)
      else
        let assetId = nextTokenId s;
            s1 = s\<lparr>nextTokenId := assetId + 1, assigned := assigned s @ [assetId]\<rparr>
        in case internal_safeMint now ext to assetId s1 of
             Inl e \<Rightarrow> Inl e
           | Inr s2 \<Rightarrow>
               Inr (assetId,
                    s2\<lparr>assetDetails := (assetDetails s2)(assetId :=
                         \<lparr>metadataURI = uri, isCompliant = False, status = Pending,
                          valuation = val, registrationDate = now, assetType = atype\<rparr>)\<rparr>))"

text \<open>\<^verbatim>\<open>setUserVerification\<close> (lines 98-104).\<close>

definition setUserVerification ::
  "address \<Rightarrow> address \<Rightarrow> bool \<Rightarrow> contract \<Rightarrow> error + contract" where
  "setUserVerification sender user flag s =
     (if \<not> hasRole COMPLIANCE_ROLE sender s
      then Inl (AccessControlUnauthorizedAccount sender COMPLIANCE_ROLE)
      else Inr (s\<lparr>verifiedUsers := (verifiedUsers s)(user := flag)\<rparr>))"

text \<open>
  \<^verbatim>\<open>batchVerifyUsers\<close> (lines 107-115): after the role check, the loop over the array,
  one write per element.
\<close>

fun batchVerifyUsers_loop :: "address list \<Rightarrow> bool \<Rightarrow> contract \<Rightarrow> contract" where
  "batchVerifyUsers_loop [] flag s = s"
| "batchVerifyUsers_loop (u # us) flag s =
     batchVerifyUsers_loop us flag (s\<lparr>verifiedUsers := (verifiedUsers s)(u := flag)\<rparr>)"

definition batchVerifyUsers ::
  "address \<Rightarrow> address list \<Rightarrow> bool \<Rightarrow> contract \<Rightarrow> error + contract" where
  "batchVerifyUsers sender users flag s =
     (if \<not> hasRole COMPLIANCE_ROLE sender s
      then Inl (AccessControlUnauthorizedAccount sender COMPLIANCE_ROLE)
      else Inr (batchVerifyUsers_loop users flag s))"

text \<open>\<^verbatim>\<open>setCompliance\<close>, \<^verbatim>\<open>setAssetStatus\<close>, \<^verbatim>\<open>updateValuation\<close> and \<^verbatim>\<open>updateMetadata\<close>
  (lines 118-145 and 199-206).\<close>

definition setCompliance :: "address \<Rightarrow> uint256 \<Rightarrow> bool \<Rightarrow> contract \<Rightarrow> error + contract" where
  "setCompliance sender assetId flag s =
     (if \<not> hasRole COMPLIANCE_ROLE sender s
      then Inl (AccessControlUnauthorizedAccount sender COMPLIANCE_ROLE)
      else if internal_ownerOf assetId s = 0 then Inl (Require ''Asset does not exist'')
      else Inr (s\<lparr>assetDetails := (assetDetails s)(assetId :=
                   (assetDetails s assetId)\<lparr>isCompliant := flag\<rparr>)\<rparr>))"

definition setAssetStatus ::
  "address \<Rightarrow> uint256 \<Rightarrow> AssetStatus \<Rightarrow> contract \<Rightarrow> error + contract" where
  "setAssetStatus sender assetId newStatus s =
     (if \<not> hasRole ADMIN_ROLE sender s
      then Inl (AccessControlUnauthorizedAccount sender ADMIN_ROLE)
      else if internal_ownerOf assetId s = 0 then Inl (Require ''Asset does not exist'')
      else Inr (s\<lparr>assetDetails := (assetDetails s)(assetId :=
                   (assetDetails s assetId)\<lparr>status := newStatus\<rparr>)\<rparr>))"

definition updateValuation ::
  "address \<Rightarrow> uint256 \<Rightarrow> uint256 \<Rightarrow> contract \<Rightarrow> error + contract" where
  "updateValuation sender assetId newValuation s =
     (if \<not> hasRole ADMIN_ROLE sender s
      then Inl (AccessControlUnauthorizedAccount sender ADMIN_ROLE)
      else if internal_ownerOf assetId s = 0 then Inl (Require ''Asset does not exist'')
      else Inr (s\<lparr>assetDetails := (assetDetails s)(assetId :=
                   (assetDetails s assetId)\<lparr>valuation := newValuation\<rparr>)\<rparr>))"

definition updateMetadata ::
  "address \<Rightarrow> uint256 \<Rightarrow> string \<Rightarrow> contract \<Rightarrow> error + contract" where
  "updateMetadata sender assetId newMetadataURI s =
     (if \<not> hasRole ADMIN_ROLE sender s
      then Inl (AccessControlUnauthorizedAccount sender ADMIN_ROLE)
      else if internal_ownerOf assetId s = 0 then Inl (Require ''Asset does not exist'')
      else Inr (s\<lparr>assetDetails := (assetDetails s)(assetId :=
                   (assetDetails s assetId)\<lparr>metadataURI := newMetadataURI\<rparr>)\<rparr>))"

text \<open>
  \<^verbatim>\<open>transferWithPrice\<close> (lines 148-166). The body between the two halves of
  \<^verbatim>\<open>nonReentrant\<close> is a function of its own: the authorisation of the caller against
  the current owner, the verified recipient, the push of the priced record, then
  \<^verbatim>\<open>_transfer\<close>.
\<close>

definition push_priced_record ::
  "uint256 \<Rightarrow> address \<Rightarrow> address \<Rightarrow> uint256 \<Rightarrow> uint256 \<Rightarrow> contract \<Rightarrow> contract" where
  "push_priced_record now from to assetId price s =
     s\<lparr>transferHistory := (transferHistory s)(assetId :=
         transferHistory s assetId @
           [\<lparr>rec_from = from, rec_to = to, rec_timestamp = now, rec_price = price\<rparr>])\<rparr>"

definition transferWithPrice_body ::
  "address \<Rightarrow> uint256 \<Rightarrow> address \<Rightarrow> address \<Rightarrow> uint256 \<Rightarrow> uint256 \<Rightarrow> contract
     \<Rightarrow> error + contract" where
  "transferWithPrice_body sender now from to assetId price s =
     (if \<not> internal_isAuthorized (internal_ownerOf assetId s) sender assetId s
      then Inl (Require ''Not authorized'')
      else if \<not> verifiedUsers s to then Inl (Require ''Recipient not verified'')
      else internal_transfer now from to assetId (push_priced_record now from to assetId price s))"

definition transferWithPrice ::
  "address \<Rightarrow> uint256 \<Rightarrow> address \<Rightarrow> address \<Rightarrow> uint256 \<Rightarrow> uint256 \<Rightarrow> contract
     \<Rightarrow> error + contract" where
  "transferWithPrice sender now from to assetId price s =
     (case nonReentrantBefore s of
        Inl e \<Rightarrow> Inl e
      | Inr s1 \<Rightarrow>
          (case transferWithPrice_body sender now from to assetId price s1 of
             Inl e \<Rightarrow> Inl e
           | Inr s2 \<Rightarrow> Inr (nonReentrantAfter s2)))"

text \<open>\<^verbatim>\<open>getAssetInfo\<close> (lines 209-233) and \<^verbatim>\<open>getTransferHistory\<close> (lines 236-243).\<close>

definition getAssetInfo ::
  "uint256 \<Rightarrow> contract
     \<Rightarrow> error + (string \<times> bool \<times> AssetStatus \<times> uint256 \<times> uint256 \<times> string \<times> address)" where
  "getAssetInfo assetId s =
     (if internal_ownerOf assetId s = 0 then Inl (Require ''Asset does not exist'')
      else
        let info = assetDetails s assetId
        in Inr (metadataURI info, isCompliant info, status info, valuation info,
                registrationDate info, assetType info, internal_ownerOf assetId s))"

definition getTransferHistory :: "uint256 \<Rightarrow> contract \<Rightarrow> error + TransferRecord list" where
  "getTransferHistory assetId s =
     (if internal_ownerOf assetId s = 0 then Inl (Require ''Asset does not exist'')
      else Inr (transferHistory s assetId))"

text \<open>
  The storage after a call: the new storage when the call returns, the storage before
  the call when it reverts.
\<close>

definition after_call :: "error + contract \<Rightarrow> contract \<Rightarrow> contract" where
  "after_call r s = (case r of Inl e \<Rightarrow> s | Inr s' \<Rightarrow> s')"

subsection \<open>Sequences of calls\<close>

text \<open>
  The state-changing external functions of the contract, with their arguments: the
  contract's own and the ones it inherits from ERC721 and AccessControl.
\<close>

datatype call =
    RegisterAsset address string string uint256
  | SetUserVerification address bool
  | BatchVerifyUsers "address list" bool
  | SetCompliance uint256 bool
  | SetAssetStatus uint256 AssetStatus
  | UpdateValuation uint256 uint256
  | TransferWithPrice address address uint256 uint256
  | UpdateMetadata uint256 string
  | TransferFrom address address uint256
  | SafeTransferFrom address address uint256
  | Approve address uint256
  | SetApprovalForAll address bool
  | GrantRole role address
  | RevokeRole role address
  | RenounceRole role address

text \<open>
  What a recipient's hook does. \<open>Answer r\<close>: it answers \<open>r\<close>. \<open>Calls sender c h caught
  rest\<close>: it first has \<open>sender\<close> (the recipient itself, or a contract it calls) call the
  function \<open>c\<close> of this contract, in the same block; \<open>h\<close> is what the hook does that this
  nested call may reach in turn. When the nested call reverts, its writes are gone and
  the hook either has caught the revert (\<open>caught\<close>) and goes on, or ends in the same
  revert. Then the hook goes on as \<open>rest\<close>. A hook that looks at the storage before it
  decides is, in each single execution, one of these.
\<close>

datatype hook =
    Answer receiver_reply
  | Calls address call hook bool hook

text \<open>
  A transaction: the caller, the block's timestamp, what the recipient's hook does
  should the call reach it, and the call.
\<close>

record transaction =
  tx_sender :: address
  tx_now :: uint256
  tx_hook :: hook
  tx_call :: call

definition no_result :: "error + contract \<Rightarrow> error + (uint256 option \<times> contract)" where
  "no_result r = (case r of Inl e \<Rightarrow> Inl e | Inr s \<Rightarrow> Inr (None, s))"

text \<open>
  One call on the storage, \<open>ext to\<close> being the external call of the hook of recipient
  \<open>to\<close>. The result holds the identifier a registration returned, \<open>None\<close> for every
  other function.
\<close>

fun dispatch_with ::
  "(address \<Rightarrow> contract \<Rightarrow> error + contract) \<Rightarrow> address \<Rightarrow> uint256 \<Rightarrow> call \<Rightarrow> contract
     \<Rightarrow> error + (uint256 option \<times> contract)" where
  "dispatch_with ext sender now (RegisterAsset to uri atype val) s =
     (case registerAsset sender now (ext to) to uri atype val s of
        Inl e \<Rightarrow> Inl e
      | Inr (assetId, s') \<Rightarrow> Inr (Some assetId, s'))"
| "dispatch_with ext sender now (SetUserVerification user flag) s =
     no_result (setUserVerification sender user flag s)"
| "dispatch_with ext sender now (BatchVerifyUsers users flag) s =
     no_result (batchVerifyUsers sender users flag s)"
| "dispatch_with ext sender now (SetCompliance assetId flag) s =
     no_result (setCompliance sender assetId flag s)"
| "dispatch_with ext sender now (SetAssetStatus assetId newStatus) s =
     no_result (setAssetStatus sender assetId newStatus s)"
| "dispatch_with ext sender now (UpdateValuation assetId newValuation) s =
     no_result (updateValuation sender assetId newValuation s)"
| "dispatch_with ext sender now (TransferWithPrice from to assetId price) s =
     no_result (transferWithPrice sender now from to assetId price s)"
| "dispatch_with ext sender now (UpdateMetadata assetId newMetadataURI) s =
     no_result (updateMetadata sender assetId newMetadataURI s)"
| "dispatch_with ext sender now (TransferFrom from to tokenId) s =
     no_result (transferFrom sender now from to tokenId s)"
| "dispatch_with ext sender now (SafeTransferFrom from to tokenId) s =
     no_result (safeTransferFrom sender now (ext to) from to tokenId s)"
| "dispatch_with ext sender now (Approve to tokenId) s =
     no_result (approve sender to tokenId s)"
| "dispatch_with ext sender now (SetApprovalForAll operator approved) s =
     no_result (setApprovalForAll sender operator approved s)"
| "dispatch_with ext sender now (GrantRole r account) s =
     no_result (grantRole sender r account s)"
| "dispatch_with ext sender now (RevokeRole r account) s =
     no_result (revokeRole sender r account s)"
| "dispatch_with ext sender now (RenounceRole r callerConfirmation) s =
     no_result (renounceRole sender r callerConfirmation s)"

text \<open>
  The external call of the hook of recipient \<open>to\<close>, on the storage it is entered with:
  the nested calls one after the other, each on the storage the one before left, and
  at the end \<^verbatim>\<open>checkOnERC721Received\<close> on the answer.
\<close>

fun receiver_hook :: "uint256 \<Rightarrow> hook \<Rightarrow> address \<Rightarrow> contract \<Rightarrow> error + contract" where
  "receiver_hook now (Answer reply) to s =
     (case checkOnERC721Received reply to of Inl e \<Rightarrow> Inl e | Inr _ \<Rightarrow> Inr s)"
| "receiver_hook now (Calls sender c h caught rest) to s =
     (case dispatch_with (\<lambda>to' s'. receiver_hook now h to' s') sender now c s of
        Inl e \<Rightarrow> if caught then receiver_hook now rest to s else Inl e
      | Inr (r, s') \<Rightarrow> receiver_hook now rest to s')"

definition dispatch ::
  "address \<Rightarrow> uint256 \<Rightarrow> hook \<Rightarrow> call \<Rightarrow> contract \<Rightarrow> error + (uint256 option \<times> contract)" where
  "dispatch sender now h c s = dispatch_with (receiver_hook now h) sender now c s"

definition exec :: "transaction \<Rightarrow> contract \<Rightarrow> error + (uint256 option \<times> contract)" where
  "exec t s = dispatch (tx_sender t) (tx_now t) (tx_hook t) (tx_call t) s"

text \<open>Every caller inside a hook is a contract, so none of them is the zero address.\<close>

fun nonzero_senders :: "hook \<Rightarrow> bool" where
  "nonzero_senders (Answer reply) = True"
| "nonzero_senders (Calls sender c h caught rest) =
     (sender \<noteq> 0 \<and> nonzero_senders h \<and> nonzero_senders rest)"

text \<open>
  A sequence of transactions, each applied to the storage the one before left. A
  reverted transaction leaves the storage as it was. The result is the list of the
  identifiers that the successful registrations among the transactions returned, in
  their order, and the final storage. The registrations made from inside hooks are in
  the \<open>assigned\<close> list of the storage.
\<close>

fun run :: "transaction list \<Rightarrow> contract \<Rightarrow> uint256 list \<times> contract" where
  "run [] s = ([], s)"
| "run (t # ts) s =
     (case exec t s of
        Inl e \<Rightarrow> run ts s
      | Inr (r, s') \<Rightarrow>
          (case r of
             None \<Rightarrow> run ts s'
           | Some assetId \<Rightarrow> (assetId # fst (run ts s'), snd (run ts s'))))"

subsection \<open>A concrete ledger\<close>

text \<open>
  Account 1 deploys, verifies accounts 2 and 3, registers asset 0 to account 2, marks it
  compliant and sets it Active: the setup of the repository's transfer tests.
\<close>

definition tx :: "address \<Rightarrow> uint256 \<Rightarrow> call \<Rightarrow> transaction" where
  "tx sender now c = \<lparr>tx_sender = sender, tx_now = now, tx_hook = Answer Accepts, tx_call = c\<rparr>"

definition register_txs :: "transaction list" where
  "register_txs =
     [tx 1 10 (SetUserVerification 2 True),
      tx 1 11 (SetUserVerification 3 True),
      tx 1 12 (RegisterAsset 2 ''ipfs://1'' ''property'' 100)]"

definition setup_txs :: "transaction list" where
  "setup_txs = register_txs @ [tx 1 13 (SetCompliance 0 True), tx 1 14 (SetAssetStatus 0 Active)]"

text \<open>The ledger right after the registration: asset 0 is Pending and not compliant.\<close>

definition pending_ledger :: contract where
  "pending_ledger = snd (run register_txs (constructor 1))"

definition active_ledger :: contract where
  "active_ledger = snd (run setup_txs (constructor 1))"

text \<open>The ledger after account 2 has transferred asset 0 to account 3 by \<^verbatim>\<open>transferFrom\<close>.\<close>

definition moved_ledger :: contract where
  "moved_ledger = snd (run (setup_txs @ [tx 2 20 (TransferFrom 2 3 0)]) (constructor 1))"

text \<open>
  A recipient that registers from inside its hook. Account 5 is a contract; the
  deployer verifies it and grants it the Minter role. The deployer registers an asset to
  it, and its \<^verbatim>\<open>onERC721Received\<close> registers another asset to itself before it accepts.
  Then the deployer registers a third asset to it, which the hook accepts at once.
\<close>

definition callback_txs :: "transaction list" where
  "callback_txs =
     [tx 1 10 (SetUserVerification 5 True),
      tx 1 11 (GrantRole MINTER_ROLE 5),
      \<lparr>tx_sender = 1, tx_now = 12,
       tx_hook = Calls 5 (RegisterAsset 5 ''ipfs://b'' ''share'' 2) (Answer Accepts) False
                   (Answer Accepts),
       tx_call = RegisterAsset 5 ''ipfs://a'' ''property'' 1\<rparr>,
      tx 1 13 (RegisterAsset 5 ''ipfs://c'' ''other'' 3)]"

subsection \<open>Well-formed storage\<close>

text \<open>
  What every reachable storage satisfies, used in the proofs about sequences of calls:
  the tokens that have an owner are the identifiers below \<^verbatim>\<open>_nextTokenId\<close>, the zero
  address has approved no operator, a token without owner has no approved spender, and
  the identifiers handed out so far are \<open>0, 1, ...\<close> up to \<^verbatim>\<open>_nextTokenId\<close>, in this
  order.
\<close>

definition wf_ledger :: "contract \<Rightarrow> bool" where
  "wf_ledger s \<longleftrightarrow>
     (\<forall>tokenId. owners s tokenId \<noteq> 0 \<longrightarrow> tokenId < nextTokenId s)
     \<and> (\<forall>tokenId. tokenId < nextTokenId s \<longrightarrow> owners s tokenId \<noteq> 0)
     \<and> (\<forall>operator. \<not> operatorApprovals s 0 operator)
     \<and> (\<forall>tokenId. owners s tokenId = 0 \<longrightarrow> tokenApprovals s tokenId = 0)
     \<and> assigned s = [0..<nextTokenId s]"

section \<open>Properties\<close>

subsection \<open>What a successful update and a successful transfer did\<close>

lemmas contract_defs = hasRole_def internal_grantRole_def internal_revokeRole_def getRoleAdmin_def grantRole_def revokeRole_def
  renounceRole_def nonReentrantBefore_def nonReentrantAfter_def internal_ownerOf_def internal_isAuthorized_def
  internal_requireOwned_def ERC721_update_def approve_def setApprovalForAll_def checkOnERC721Received_def
  internal_update_def transferFrom_def safeTransferFrom_def internal_transfer_def internal_mint_def internal_safeMint_def
  empty_AssetInfo_def empty_storage_def constructor_def registerAsset_def setUserVerification_def batchVerifyUsers_def
  setCompliance_def setAssetStatus_def updateValuation_def updateMetadata_def push_priced_record_def transferWithPrice_body_def
  transferWithPrice_def getAssetInfo_def getTransferHistory_def after_call_def no_result_def dispatch_def exec_def tx_def UINT256_MAX_def

lemma ERC721_update_Inr:
  assumes "ERC721_update to tokenId auth s = Inr (p, s')"
  shows "p = owners s tokenId
    \<and> owners s' = (owners s)(tokenId := to)
    \<and> transferHistory s' = transferHistory s
    \<and> reentrancy_status s' = reentrancy_status s
    \<and> nextTokenId s' = nextTokenId s
    \<and> assigned s' = assigned s
    \<and> verifiedUsers s' = verifiedUsers s
    \<and> assetDetails s' = assetDetails s
    \<and> operatorApprovals s' = operatorApprovals s
    \<and> roles s' = roles s
    \<and> tokenApprovals s' = (if p = 0 then tokenApprovals s else (tokenApprovals s)(tokenId := 0))
    \<and> (auth \<noteq> 0 \<longrightarrow> internal_isAuthorized p auth tokenId s)"
  using assms
  by (auto simp: ERC721_update_def internal_ownerOf_def Let_def split: if_splits)

lemma internal_update_Inr:
  assumes "internal_update now to tokenId auth s = Inr (p, s')"
  shows "p = owners s tokenId
    \<and> owners s' = (owners s)(tokenId := to)
    \<and> transferHistory s' =
          (if p \<noteq> 0 \<and> (transferHistory s tokenId = [] \<or> rec_to (last (transferHistory s tokenId)) \<noteq> to)
           then (transferHistory s)(tokenId := transferHistory s tokenId @
                  [\<lparr>rec_from = p, rec_to = to, rec_timestamp = now, rec_price = 0\<rparr>])
           else transferHistory s)
    \<and> reentrancy_status s' = reentrancy_status s
    \<and> nextTokenId s' = nextTokenId s
    \<and> assigned s' = assigned s
    \<and> verifiedUsers s' = verifiedUsers s
    \<and> assetDetails s' = assetDetails s
    \<and> operatorApprovals s' = operatorApprovals s
    \<and> roles s' = roles s
    \<and> tokenApprovals s' = (if p = 0 then tokenApprovals s else (tokenApprovals s)(tokenId := 0))
    \<and> (auth \<noteq> 0 \<longrightarrow> internal_isAuthorized p auth tokenId s)
    \<and> (p \<noteq> 0 \<longrightarrow> isCompliant (assetDetails s tokenId) \<and> status (assetDetails s tokenId) = Active
           \<and> verifiedUsers s to)"
proof (cases "owners s tokenId = 0")
  case True
  with assms have "ERC721_update to tokenId auth s = Inr (p, s')"
    by (simp add: internal_update_def internal_ownerOf_def)
  from ERC721_update_Inr [OF this] True show ?thesis by auto
next
  case False
  define h where "h = transferHistory s tokenId"
  define s1 where "s1 = (if h = [] \<or> rec_to (last h) \<noteq> to
       then s\<lparr>transferHistory := (transferHistory s)(tokenId :=
              h @ [\<lparr>rec_from = owners s tokenId, rec_to = to, rec_timestamp = now, rec_price = 0\<rparr>])\<rparr>
       else s)"
  from assms False have gate: "isCompliant (assetDetails s tokenId)"
    "status (assetDetails s tokenId) = Active" "verifiedUsers s to"
    by (auto simp: internal_update_def internal_ownerOf_def Let_def split: if_splits)
  with assms False have "ERC721_update to tokenId auth s1 = Inr (p, s')"
    by (auto simp: internal_update_def internal_ownerOf_def Let_def s1_def h_def last_conv_nth
        split: if_splits)
  from ERC721_update_Inr [OF this] False gate show ?thesis
    by (auto simp: s1_def h_def internal_isAuthorized_def)
qed

lemma internal_transfer_Inr:
  assumes "internal_transfer now from to tokenId s = Inr s'"
  shows "from = owners s tokenId \<and> from \<noteq> 0 \<and> to \<noteq> 0
    \<and> internal_update now to tokenId 0 s = Inr (from, s')"
  using assms
  by (auto simp: internal_transfer_def split: if_splits sum.splits dest: internal_update_Inr)

lemma transferFrom_Inr:
  assumes "transferFrom sender now from to tokenId s = Inr s'"
  shows "from = owners s tokenId \<and> to \<noteq> 0
    \<and> internal_update now to tokenId sender s = Inr (from, s')"
  using assms
  by (auto simp: transferFrom_def split: if_splits sum.splits dest: internal_update_Inr)

lemma safeTransferFrom_Inr:
  assumes "safeTransferFrom sender now ext from to tokenId s = Inr s'"
  shows "\<exists>s1. transferFrom sender now from to tokenId s = Inr s1 \<and> ext s1 = Inr s'"
  using assms by (auto simp: safeTransferFrom_def split: sum.splits)

lemma transferWithPrice_Inr:
  assumes "transferWithPrice sender now from to assetId price s = Inr s'"
  shows "reentrancy_status s = NOT_ENTERED
    \<and> internal_isAuthorized (owners s assetId) sender assetId s
    \<and> verifiedUsers s to
    \<and> (\<exists>s2. internal_transfer now from to assetId
          (push_priced_record now from to assetId price (s\<lparr>reentrancy_status := ENTERED\<rparr>)) = Inr s2
        \<and> s' = s2\<lparr>reentrancy_status := NOT_ENTERED\<rparr>)"
  using assms
  by (cases "reentrancy_status s")
     (auto simp: transferWithPrice_def nonReentrantBefore_def nonReentrantAfter_def
      transferWithPrice_body_def internal_ownerOf_def internal_isAuthorized_def push_priced_record_def
      split: if_splits sum.splits)

lemma transferWithPrice_history:
  assumes "transferWithPrice sender now from to assetId price s = Inr s'"
  shows "transferHistory s' = (transferHistory s)(assetId := transferHistory s assetId @
      [\<lparr>rec_from = from, rec_to = to, rec_timestamp = now, rec_price = price\<rparr>])"
    and "from = owners s assetId" and "owners s' = (owners s)(assetId := to)"
proof -
  from transferWithPrice_Inr [OF assms] obtain s2 where
    t: "internal_transfer now from to assetId
          (push_priced_record now from to assetId price (s\<lparr>reentrancy_status := ENTERED\<rparr>)) = Inr s2"
    and s': "s' = s2\<lparr>reentrancy_status := NOT_ENTERED\<rparr>"
    by blast
  from internal_transfer_Inr [OF t] have
    u: "internal_update now to assetId 0
          (push_priced_record now from to assetId price (s\<lparr>reentrancy_status := ENTERED\<rparr>)) = Inr (from, s2)"
    and f: "from = owners (push_priced_record now from to assetId price (s\<lparr>reentrancy_status := ENTERED\<rparr>)) assetId"
    by simp_all
  from f show "from = owners s assetId" by (simp add: push_priced_record_def)
  from internal_update_Inr [OF u] s' show "transferHistory s' = (transferHistory s)(assetId := transferHistory s assetId @
      [\<lparr>rec_from = from, rec_to = to, rec_timestamp = now, rec_price = price\<rparr>])"
    by (simp add: push_priced_record_def)
  from internal_update_Inr [OF u] s' show "owners s' = (owners s)(assetId := to)"
    by (simp add: push_priced_record_def)
qed

lemma transferWithPrice_wrong_from:
  assumes "from \<noteq> internal_ownerOf assetId s"
  shows "\<exists>e. transferWithPrice sender now from to assetId price s = Inl e"
proof (cases "transferWithPrice sender now from to assetId price s")
  case (Inl e) then show ?thesis by simp
next
  case (Inr s')
  from transferWithPrice_history(2) [OF Inr] assms show ?thesis
    by (simp add: internal_ownerOf_def)
qed

lemma transferFrom_gate:
  assumes "transferFrom sender now from to tokenId s = Inr s'" and "internal_ownerOf tokenId s \<noteq> 0"
  shows "isCompliant (assetDetails s tokenId) \<and> status (assetDetails s tokenId) = Active
     \<and> verifiedUsers s to"
proof -
  from transferFrom_Inr [OF assms(1)] have
    u: "internal_update now to tokenId sender s = Inr (from, s')" by simp
  from internal_update_Inr [OF u] assms(2) show ?thesis
    by (simp add: internal_ownerOf_def)
qed

lemma transferWithPrice_gate:
  assumes "transferWithPrice sender now from to assetId price s = Inr s'"
  shows "isCompliant (assetDetails s assetId) \<and> status (assetDetails s assetId) = Active
     \<and> verifiedUsers s to"
proof -
  from transferWithPrice_Inr [OF assms] obtain s2 where
    t: "internal_transfer now from to assetId
          (push_priced_record now from to assetId price (s\<lparr>reentrancy_status := ENTERED\<rparr>)) = Inr s2"
    by blast
  from internal_transfer_Inr [OF t] have
    u: "internal_update now to assetId 0
          (push_priced_record now from to assetId price (s\<lparr>reentrancy_status := ENTERED\<rparr>)) = Inr (from, s2)"
    and f: "from \<noteq> 0"
    by simp_all
  from internal_update_Inr [OF u] f show ?thesis
    by (simp add: push_priced_record_def)
qed

lemma not_Inr_is_Inl: "(\<And>x. r \<noteq> Inr x) \<Longrightarrow> \<exists>e. r = Inl e"
  by (cases r) auto

text \<open>
  What a successful plain transfer does to the history of the token: it appends the
  zero-price record when the history is empty or its last record names another
  recipient, and leaves the history as it is otherwise.
\<close>

lemma transferFrom_history:
  assumes "transferFrom sender now from to tokenId s = Inr s'" and "internal_ownerOf tokenId s \<noteq> 0"
  shows "transferHistory s' tokenId =
     (if transferHistory s tokenId = [] \<or> rec_to (last (transferHistory s tokenId)) \<noteq> to
      then transferHistory s tokenId @
             [\<lparr>rec_from = from, rec_to = to, rec_timestamp = now, rec_price = 0\<rparr>]
      else transferHistory s tokenId)"
proof -
  from transferFrom_Inr [OF assms(1)] have
    u: "internal_update now to tokenId sender s = Inr (from, s')" by simp
  from internal_update_Inr [OF u] assms(2) show ?thesis
    by (auto simp: internal_ownerOf_def)
qed

text \<open>
  A batch by a caller with the Compliance role returns for a list of any length, with
  the flag of every listed account set.
\<close>

lemma batchVerifyUsers_loop_verified:
  "verifiedUsers (batchVerifyUsers_loop us flag s)
     = (\<lambda>a. if a \<in> set us then flag else verifiedUsers s a)"
  by (induction us arbitrary: s) (auto simp: fun_eq_iff)

lemma batchVerifyUsers_sets_all:
  assumes "hasRole COMPLIANCE_ROLE sender s"
  shows "\<exists>s'. batchVerifyUsers sender users flag s = Inr s'
     \<and> (\<forall>a. verifiedUsers s' a = (if a \<in> set users then flag else verifiedUsers s a))"
  using assms by (simp add: batchVerifyUsers_def batchVerifyUsers_loop_verified)

text \<open>
  When the recipient is not verified, each entry point reverts, and the check that
  fails first decides the error.
\<close>

lemma registerAsset_unverified:
  assumes "\<not> verifiedUsers s to"
  shows "registerAsset sender now ext to uri atype val s =
     (if hasRole MINTER_ROLE sender s then Inl (Require ''Recipient not verified'')
      else Inl (AccessControlUnauthorizedAccount sender MINTER_ROLE))"
  using assms by (simp add: registerAsset_def)

lemma transferWithPrice_unverified:
  assumes "\<not> verifiedUsers s to"
  shows "transferWithPrice sender now from to assetId price s =
     (if reentrancy_status s = ENTERED then Inl ReentrancyGuardReentrantCall
      else if \<not> internal_isAuthorized (internal_ownerOf assetId s) sender assetId s
      then Inl (Require ''Not authorized'')
      else Inl (Require ''Recipient not verified''))"
  using assms
  by (simp add: transferWithPrice_def nonReentrantBefore_def transferWithPrice_body_def
      internal_ownerOf_def internal_isAuthorized_def)

lemma transferFrom_unverified:
  assumes "\<not> verifiedUsers s to" and "internal_ownerOf tokenId s \<noteq> 0"
  shows "transferFrom sender now from to tokenId s =
     (if to = 0 then Inl (ERC721InvalidReceiver 0)
      else if \<not> isCompliant (assetDetails s tokenId) then Inl (Require ''Asset not compliant'')
      else if status (assetDetails s tokenId) \<noteq> Active then Inl (Require ''Asset not active'')
      else Inl (Require ''Recipient not verified''))"
  using assms by (simp add: transferFrom_def internal_update_def Let_def)

text \<open>
  The gate is also sufficient: in every storage, a transfer by an authorised caller of
  a compliant, Active asset from its owner to a verified recipient succeeds. No other
  part of the storage can block it.
\<close>

lemma transfer_gate_sufficient:
  assumes "to \<noteq> 0" and "internal_ownerOf assetId s = from" and "from \<noteq> 0"
    and "internal_isAuthorized from sender assetId s"
    and "isCompliant (assetDetails s assetId)" and "status (assetDetails s assetId) = Active"
    and "verifiedUsers s to"
  shows "\<exists>s'. transferFrom sender now from to assetId s = Inr s'"
    and "reentrancy_status s = NOT_ENTERED \<Longrightarrow>
         \<exists>s'. transferWithPrice sender now from to assetId price s = Inr s'"
  using assms
  by (auto simp: transferFrom_def transferWithPrice_def transferWithPrice_body_def
      nonReentrantBefore_def internal_transfer_def internal_update_def ERC721_update_def
      push_priced_record_def internal_ownerOf_def internal_isAuthorized_def Let_def)

subsection \<open>The concrete ledgers, evaluated\<close>

lemma constructor_eq:
  "constructor d =
     \<lparr>owners = (\<lambda>_. 0), balances = (\<lambda>_. 0), tokenApprovals = (\<lambda>_. 0),
      operatorApprovals = (\<lambda>_ _. False),
      roles = (\<lambda>_ _. False)
           (DEFAULT_ADMIN_ROLE := (\<lambda>_. False)(d := True),
            ADMIN_ROLE := (\<lambda>_. False)(d := True),
            MINTER_ROLE := (\<lambda>_. False)(d := True),
            COMPLIANCE_ROLE := (\<lambda>_. False)(d := True)),
      reentrancy_status = NOT_ENTERED, assetDetails = (\<lambda>_. empty_AssetInfo),
      transferHistory = (\<lambda>_. []), verifiedUsers = (\<lambda>_. False)(d := True), nextTokenId = 0,
      assigned = []\<rparr>"
  by (simp add: constructor_def internal_grantRole_def hasRole_def empty_storage_def Let_def)

lemma pending_ledger_eq:
  "pending_ledger =
     \<lparr>owners = (\<lambda>_. 0)(0 := 2), balances = (\<lambda>_. 0)(2 := 1),
      tokenApprovals = (\<lambda>_. 0), operatorApprovals = (\<lambda>_ _. False),
      roles = (\<lambda>_ _. False)
           (DEFAULT_ADMIN_ROLE := (\<lambda>_. False)(1 := True),
            ADMIN_ROLE := (\<lambda>_. False)(1 := True),
            MINTER_ROLE := (\<lambda>_. False)(1 := True),
            COMPLIANCE_ROLE := (\<lambda>_. False)(1 := True)),
      reentrancy_status = NOT_ENTERED,
      assetDetails = (\<lambda>_. empty_AssetInfo)
           (0 := \<lparr>metadataURI = ''ipfs://1'', isCompliant = False, status = Pending,
                  valuation = 100, registrationDate = 12, assetType = ''property''\<rparr>),
      transferHistory = (\<lambda>_. []),
      verifiedUsers = (\<lambda>_. False)(1 := True, 2 := True, 3 := True),
      nextTokenId = 1, assigned = [0]\<rparr>"
  by (simp add: pending_ledger_def register_txs_def contract_defs Let_def)

lemma active_ledger_eq:
  "active_ledger =
     \<lparr>owners = (\<lambda>_. 0)(0 := 2), balances = (\<lambda>_. 0)(2 := 1),
      tokenApprovals = (\<lambda>_. 0), operatorApprovals = (\<lambda>_ _. False),
      roles = (\<lambda>_ _. False)
           (DEFAULT_ADMIN_ROLE := (\<lambda>_. False)(1 := True),
            ADMIN_ROLE := (\<lambda>_. False)(1 := True),
            MINTER_ROLE := (\<lambda>_. False)(1 := True),
            COMPLIANCE_ROLE := (\<lambda>_. False)(1 := True)),
      reentrancy_status = NOT_ENTERED,
      assetDetails = (\<lambda>_. empty_AssetInfo)
           (0 := \<lparr>metadataURI = ''ipfs://1'', isCompliant = True, status = Active,
                  valuation = 100, registrationDate = 12, assetType = ''property''\<rparr>),
      transferHistory = (\<lambda>_. []),
      verifiedUsers = (\<lambda>_. False)(1 := True, 2 := True, 3 := True),
      nextTokenId = 1, assigned = [0]\<rparr>"
  by (simp add: active_ledger_def setup_txs_def register_txs_def contract_defs Let_def)

lemma moved_ledger_eq:
  "moved_ledger =
     \<lparr>owners = (\<lambda>_. 0)(0 := 3), balances = (\<lambda>_. 0)(2 := 0, 3 := 1),
      tokenApprovals = (\<lambda>_. 0)(0 := 0), operatorApprovals = (\<lambda>_ _. False),
      roles = (\<lambda>_ _. False)
           (DEFAULT_ADMIN_ROLE := (\<lambda>_. False)(1 := True),
            ADMIN_ROLE := (\<lambda>_. False)(1 := True),
            MINTER_ROLE := (\<lambda>_. False)(1 := True),
            COMPLIANCE_ROLE := (\<lambda>_. False)(1 := True)),
      reentrancy_status = NOT_ENTERED,
      assetDetails = (\<lambda>_. empty_AssetInfo)
           (0 := \<lparr>metadataURI = ''ipfs://1'', isCompliant = True, status = Active,
                  valuation = 100, registrationDate = 12, assetType = ''property''\<rparr>),
      transferHistory = (\<lambda>_. [])(0 := [\<lparr>rec_from = 2, rec_to = 3, rec_timestamp = 20, rec_price = 0\<rparr>]),
      verifiedUsers = (\<lambda>_. False)(1 := True, 2 := True, 3 := True),
      nextTokenId = 1, assigned = [0]\<rparr>"
  by (simp add: moved_ledger_def setup_txs_def register_txs_def contract_defs Let_def)

subsection \<open>Well-formedness is kept by every call\<close>

lemma wf_constructor: "wf_ledger (constructor d)"
  by (simp add: wf_ledger_def constructor_eq)

lemma internal_update_wf:
  assumes "wf_ledger s" and "internal_update now to tokenId auth s = Inr (p, s')"
    and "to \<noteq> 0" and "owners s tokenId \<noteq> 0"
  shows "wf_ledger s' \<and> nextTokenId s' = nextTokenId s"
  using assms(1,3,4) internal_update_Inr [OF assms(2)]
  by (auto simp: wf_ledger_def)

lemma unowned_not_authorized:
  assumes "wf_ledger s" and "owners s tokenId = 0" and "sender \<noteq> 0"
  shows "\<not> internal_isAuthorized 0 sender tokenId s"
  using assms by (auto simp: wf_ledger_def internal_isAuthorized_def)

lemma transferFrom_wf:
  assumes "wf_ledger s" and "sender \<noteq> 0" and "transferFrom sender now from to tokenId s = Inr s'"
  shows "wf_ledger s' \<and> nextTokenId s' = nextTokenId s"
proof -
  from transferFrom_Inr [OF assms(3)] have
    u: "internal_update now to tokenId sender s = Inr (from, s')" and t: "to \<noteq> 0"
    and f: "from = owners s tokenId" by simp_all
  from internal_update_Inr [OF u] assms(2) have "internal_isAuthorized from sender tokenId s" by blast
  with unowned_not_authorized [OF assms(1) _ assms(2), of tokenId] f
  have "owners s tokenId \<noteq> 0" by (cases "owners s tokenId = 0") auto
  from internal_update_wf [OF assms(1) u t this] show ?thesis .
qed

lemma transferWithPrice_wf:
  assumes "wf_ledger s" and "transferWithPrice sender now from to assetId price s = Inr s'"
  shows "wf_ledger s' \<and> nextTokenId s' = nextTokenId s"
proof -
  let ?s1 = "push_priced_record now from to assetId price (s\<lparr>reentrancy_status := ENTERED\<rparr>)"
  from transferWithPrice_Inr [OF assms(2)] obtain s2 where
    t: "internal_transfer now from to assetId ?s1 = Inr s2"
    and s': "s' = s2\<lparr>reentrancy_status := NOT_ENTERED\<rparr>" by blast
  from internal_transfer_Inr [OF t] have
    u: "internal_update now to assetId 0 ?s1 = Inr (from, s2)"
    and f: "from = owners ?s1 assetId" "from \<noteq> 0" "to \<noteq> 0" by simp_all
  from assms(1) have w: "wf_ledger ?s1" by (simp add: wf_ledger_def push_priced_record_def)
  from f have "owners ?s1 assetId \<noteq> 0" by simp
  from internal_update_wf [OF w u f(3) this] s' show ?thesis
    by (auto simp: wf_ledger_def push_priced_record_def)
qed

text \<open>
  A registration on a well-formed storage, with an external call that keeps storages
  well-formed and does not lower \<^verbatim>\<open>_nextTokenId\<close>: the storage at the entry of the
  external call, with the token minted and the counter advanced, is well-formed, and so
  is the storage the registration leaves. The identifier returned is the counter before
  the call.
\<close>

lemma registerAsset_wf:
  assumes "wf_ledger s"
    and ext: "\<And>x x'. wf_ledger x \<Longrightarrow> ext x = Inr x' \<Longrightarrow> wf_ledger x' \<and> nextTokenId x \<le> nextTokenId x'"
    and "registerAsset sender now ext to uri atype val s = Inr (assetId, s')"
  shows "wf_ledger s' \<and> assetId = nextTokenId s \<and> assetId < nextTokenId s'"
proof -
  define s0 where "s0 = s\<lparr>nextTokenId := nextTokenId s + 1, assigned := assigned s @ [nextTokenId s]\<rparr>"
  from assms(3) have a: "assetId = nextTokenId s"
    by (auto simp: registerAsset_def Let_def split: if_splits sum.splits)
  from assms(3) obtain s1 s2 where
    m: "internal_mint now to (nextTokenId s) s0 = Inr s1" and e: "ext s1 = Inr s2"
    and s': "s' = s2\<lparr>assetDetails := (assetDetails s2)(assetId :=
                         \<lparr>metadataURI = uri, isCompliant = False, status = Pending,
                          valuation = val, registrationDate = now, assetType = atype\<rparr>)\<rparr>"
    by (auto simp: registerAsset_def internal_safeMint_def Let_def s0_def split: if_splits sum.splits)
  from assms(1) have o: "owners s0 (nextTokenId s) = 0" by (auto simp: wf_ledger_def s0_def)
  from m obtain p where u: "internal_update now to (nextTokenId s) 0 s0 = Inr (p, s1)" and t: "to \<noteq> 0"
    by (auto simp: internal_mint_def split: if_splits sum.splits)
  from internal_update_Inr [OF u] o have f: "owners s1 = (owners s0)(nextTokenId s := to)"
    "tokenApprovals s1 = tokenApprovals s0" "operatorApprovals s1 = operatorApprovals s0"
    "nextTokenId s1 = nextTokenId s0" "assigned s1 = assigned s0"
    by simp_all
  from assms(1) f t have w1: "wf_ledger s1" and n1: "nextTokenId s1 = Suc (nextTokenId s)"
    by (auto simp: wf_ledger_def s0_def less_Suc_eq)
  from ext [OF w1 e] have "wf_ledger s2" "nextTokenId s1 \<le> nextTokenId s2" by simp_all
  with s' n1 a show ?thesis by (auto simp: wf_ledger_def)
qed

lemma batchVerifyUsers_loop_fields:
  "owners (batchVerifyUsers_loop us flag s) = owners s
   \<and> tokenApprovals (batchVerifyUsers_loop us flag s) = tokenApprovals s
   \<and> operatorApprovals (batchVerifyUsers_loop us flag s) = operatorApprovals s
   \<and> nextTokenId (batchVerifyUsers_loop us flag s) = nextTokenId s
   \<and> assigned (batchVerifyUsers_loop us flag s) = assigned s
   \<and> transferHistory (batchVerifyUsers_loop us flag s) = transferHistory s
   \<and> verifiedUsers (batchVerifyUsers_loop us flag s)
       = (\<lambda>a. if a \<in> set us then flag else verifiedUsers s a)"
  by (induction us arbitrary: s) (auto simp: fun_eq_iff)

text \<open>
  One call, whatever the external calls of the hooks are, as long as they keep
  storages well-formed and do not lower the counter.
\<close>

lemma dispatch_with_wf:
  assumes ext: "\<And>to x x'. wf_ledger x \<Longrightarrow> ext to x = Inr x'
                  \<Longrightarrow> wf_ledger x' \<and> nextTokenId x \<le> nextTokenId x'"
    and "wf_ledger s" and "sender \<noteq> 0" and "dispatch_with ext sender now c s = Inr (r, s')"
  shows "wf_ledger s' \<and> nextTokenId s \<le> nextTokenId s'
     \<and> (case r of None \<Rightarrow> True
         | Some assetId \<Rightarrow> assetId = nextTokenId s \<and> assetId < nextTokenId s')"
proof (cases c)
  case (RegisterAsset to uri atype val)
  with assms(4) obtain assetId where
    h: "registerAsset sender now (ext to) to uri atype val s = Inr (assetId, s')"
    and r: "r = Some assetId"
    by (auto split: sum.splits)
  have e: "\<And>x x'. wf_ledger x \<Longrightarrow> ext to x = Inr x'
                  \<Longrightarrow> wf_ledger x' \<and> nextTokenId x \<le> nextTokenId x'"
    using ext by blast
  from registerAsset_wf [OF assms(2) e h] r show ?thesis by simp
next
  case (TransferWithPrice frm to assetId price)
  with assms(4) have "transferWithPrice sender now frm to assetId price s = Inr s'" "r = None"
    by (auto simp: no_result_def split: sum.splits)
  with transferWithPrice_wf [OF assms(2)] show ?thesis by auto
next
  case (TransferFrom frm to tokenId)
  with assms(4) have "transferFrom sender now frm to tokenId s = Inr s'" "r = None"
    by (auto simp: no_result_def split: sum.splits)
  with transferFrom_wf [OF assms(2,3)] show ?thesis by auto
next
  case (SafeTransferFrom frm to tokenId)
  with assms(4) have "safeTransferFrom sender now (ext to) frm to tokenId s = Inr s'" and r: "r = None"
    by (auto simp: no_result_def split: sum.splits)
  from safeTransferFrom_Inr [OF this(1)] obtain s1 where
    t: "transferFrom sender now frm to tokenId s = Inr s1" and e: "ext to s1 = Inr s'" by blast
  from transferFrom_wf [OF assms(2,3) t] have w: "wf_ledger s1" and n: "nextTokenId s1 = nextTokenId s"
    by simp_all
  from ext [OF w e] n r show ?thesis by simp
next
  case (BatchVerifyUsers users flag)
  with assms(2,4) batchVerifyUsers_loop_fields [of users flag s] show ?thesis
    by (auto simp: no_result_def batchVerifyUsers_def wf_ledger_def split: sum.splits if_splits)
next
  case (Approve to tokenId)
  with assms(4) have "owners s tokenId \<noteq> 0
      \<and> s' = s\<lparr>tokenApprovals := (tokenApprovals s)(tokenId := to)\<rparr> \<and> r = None"
    by (auto simp: no_result_def approve_def internal_requireOwned_def internal_ownerOf_def
        split: sum.splits if_splits)
  with assms(2) show ?thesis by (auto simp: wf_ledger_def)
next
  case (SetApprovalForAll operator approved)
  with assms(2,3,4) show ?thesis
    by (auto simp: no_result_def setApprovalForAll_def wf_ledger_def split: sum.splits if_splits)
qed (insert assms(2,3,4), auto simp: no_result_def setUserVerification_def setCompliance_def
      setAssetStatus_def updateValuation_def updateMetadata_def grantRole_def revokeRole_def
      renounceRole_def internal_grantRole_def internal_revokeRole_def wf_ledger_def
      split: sum.splits if_splits)

text \<open>The external call of a hook, by induction on what the hook does.\<close>

lemma receiver_hook_wf:
  assumes "nonzero_senders h" and "wf_ledger s" and "receiver_hook now h to s = Inr s'"
  shows "wf_ledger s' \<and> nextTokenId s \<le> nextTokenId s'"
  using assms
proof (induction h arbitrary: to s s')
  case (Answer reply)
  then show ?case by (auto split: sum.splits)
next
  case (Calls sender c h caught rest)
  from Calls.prems(1) have ne: "sender \<noteq> 0" and nh: "nonzero_senders h" and nr: "nonzero_senders rest"
    by simp_all
  have ext: "\<And>to x x'. wf_ledger x \<Longrightarrow> receiver_hook now h to x = Inr x'
                  \<Longrightarrow> wf_ledger x' \<and> nextTokenId x \<le> nextTokenId x'"
    using Calls.IH(1) [OF nh] by blast
  show ?case
  proof (cases "dispatch_with (receiver_hook now h) sender now c s")
    case (Inl e)
    with Calls.prems(3) have "receiver_hook now rest to s = Inr s'"
      by (auto split: if_splits)
    from Calls.IH(2) [OF nr Calls.prems(2) this] show ?thesis .
  next
    case (Inr p)
    obtain r s1 where p: "p = (r, s1)" by (cases p)
    from dispatch_with_wf [OF ext Calls.prems(2) ne Inr [unfolded p]]
    have w: "wf_ledger s1" and n: "nextTokenId s \<le> nextTokenId s1" by simp_all
    from Inr p Calls.prems(3) have "receiver_hook now rest to s1 = Inr s'" by simp
    from Calls.IH(2) [OF nr w this] n show ?thesis by simp
  qed
qed

lemma exec_wf:
  assumes "wf_ledger s" and "tx_sender t \<noteq> 0" and "nonzero_senders (tx_hook t)"
    and "exec t s = Inr (r, s')"
  shows "wf_ledger s' \<and> nextTokenId s \<le> nextTokenId s'
     \<and> (case r of None \<Rightarrow> True
         | Some assetId \<Rightarrow> assetId = nextTokenId s \<and> assetId < nextTokenId s')"
proof -
  have ext: "\<And>to x x'. wf_ledger x \<Longrightarrow> receiver_hook (tx_now t) (tx_hook t) to x = Inr x'
                  \<Longrightarrow> wf_ledger x' \<and> nextTokenId x \<le> nextTokenId x'"
    using receiver_hook_wf [OF assms(3)] by blast
  from assms(4) have "dispatch_with (receiver_hook (tx_now t) (tx_hook t)) (tx_sender t) (tx_now t)
      (tx_call t) s = Inr (r, s')"
    by (simp add: exec_def dispatch_def)
  from dispatch_with_wf [OF ext assms(1,2) this] show ?thesis .
qed

text \<open>
  A sequence of transactions: the identifiers returned lie between the counter before
  and the counter after, and each is below the next.
\<close>

lemma run_registrations:
  assumes "wf_ledger s" and "\<forall>t\<in>set txs. tx_sender t \<noteq> 0 \<and> nonzero_senders (tx_hook t)"
  shows "wf_ledger (snd (run txs s))
     \<and> nextTokenId s \<le> nextTokenId (snd (run txs s))
     \<and> sorted_wrt (<) (fst (run txs s))
     \<and> (\<forall>i\<in>set (fst (run txs s)). nextTokenId s \<le> i \<and> i < nextTokenId (snd (run txs s)))"
  using assms
proof (induction txs arbitrary: s)
  case Nil
  then show ?case by simp
next
  case (Cons t ts)
  show ?case
  proof (cases "exec t s")
    case (Inl e)
    with Cons show ?thesis by simp
  next
    case (Inr p)
    obtain r s' where p: "p = (r, s')" by (cases p)
    from Cons.prems have ne: "tx_sender t \<noteq> 0" "nonzero_senders (tx_hook t)"
      and rest: "\<forall>t\<in>set ts. tx_sender t \<noteq> 0 \<and> nonzero_senders (tx_hook t)" by simp_all
    from exec_wf [OF Cons.prems(1) ne Inr [unfolded p]] have w: "wf_ledger s'"
      and m: "nextTokenId s \<le> nextTokenId s'"
      and n: "(case r of None \<Rightarrow> True
         | Some assetId \<Rightarrow> assetId = nextTokenId s \<and> assetId < nextTokenId s')" by simp_all
    note IH = Cons.IH [OF w rest]
    show ?thesis
    proof (cases r)
      case None
      with Inr p m IH show ?thesis by auto
    next
      case (Some assetId)
      with n have "assetId = nextTokenId s" "assetId < nextTokenId s'" by simp_all
      with Inr p Some m IH show ?thesis by fastforce
    qed
  qed
qed

subsection \<open>Transfer history\<close>

text \<open>
  C1. Every call of \<^verbatim>\<open>transferWithPrice\<close> that succeeds appends exactly one record to the
  history of the asset it names: the record with the caller's \<open>from\<close>, \<open>to\<close> and price
  and the block's timestamp. The override of \<^verbatim>\<open>_update\<close> adds no zero-price record of
  its own, since the last record of the history then names the recipient. The history
  of every other asset is as before.
\<close>

theorem transferWithPrice_appends_one_record:
  assumes "transferWithPrice sender now from to assetId price s = Inr s'"
  shows "transferHistory s' assetId =
           transferHistory s assetId @
             [\<lparr>rec_from = from, rec_to = to, rec_timestamp = now, rec_price = price\<rparr>]
       \<and> length (transferHistory s' assetId) = length (transferHistory s assetId) + 1
       \<and> (\<forall>other. other \<noteq> assetId \<longrightarrow> transferHistory s' other = transferHistory s other)"
  using transferWithPrice_history(1) [OF assms] by simp

theorem transferWithPrice_appends_one_record_witness:
  "\<exists>s'. transferWithPrice 2 20 2 3 0 50 active_ledger = Inr s'
     \<and> transferHistory s' 0 = [\<lparr>rec_from = 2, rec_to = 3, rec_timestamp = 20, rec_price = 50\<rparr>]
     \<and> length (transferHistory s' 0) = 1"
proof -
  have "\<exists>s'. transferWithPrice 2 20 2 3 0 50 active_ledger = Inr s'"
    by (simp add: active_ledger_eq contract_defs Let_def)
  then obtain s' where h: "transferWithPrice 2 20 2 3 0 50 active_ledger = Inr s'" ..
  from transferWithPrice_appends_one_record [OF h] have
    "transferHistory s' 0 = [\<lparr>rec_from = 2, rec_to = 3, rec_timestamp = 20, rec_price = 50\<rparr>]"
    by (simp add: active_ledger_eq)
  with h show ?thesis by simp
qed

text \<open>
  C2. The claim is that every successful plain transfer lengthens the history by one
  zero-price record. The override of \<^verbatim>\<open>_update\<close> appends only when the history is empty
  or its last record names another recipient (lines 184-185). On the ledger where
  account 2 has transferred asset 0 to account 3, account 3 now transfers the asset to
  itself: \<^verbatim>\<open>transferFrom\<close> succeeds and the history is the one record it was.
\<close>

theorem plain_self_transfer_not_recorded:
  "internal_ownerOf 0 moved_ledger = 3
   \<and> transferHistory moved_ledger 0
        = [\<lparr>rec_from = 2, rec_to = 3, rec_timestamp = 20, rec_price = 0\<rparr>]
   \<and> (\<exists>s'. transferFrom 3 30 3 3 0 moved_ledger = Inr s'
         \<and> transferHistory s' 0 = transferHistory moved_ledger 0
         \<and> length (transferHistory s' 0) = length (transferHistory moved_ledger 0))"
  by (simp add: moved_ledger_eq contract_defs Let_def)

text \<open>
  C9. When \<^verbatim>\<open>transferWithPrice\<close> succeeds, its \<open>from\<close> argument is the owner the asset had
  before the call, and so is the \<open>from\<close> field of the record it appended. A call whose
  \<open>from\<close> argument is not the current owner reverts, and the history after it is the
  history before it.
\<close>

theorem transferWithPrice_record_from_owner:
  "(transferWithPrice sender now from to assetId price s = Inr s' \<longrightarrow>
      from = internal_ownerOf assetId s
      \<and> rec_from (last (transferHistory s' assetId)) = internal_ownerOf assetId s)
   \<and> (from \<noteq> internal_ownerOf assetId s \<longrightarrow>
        (\<exists>e. transferWithPrice sender now from to assetId price s = Inl e)
        \<and> transferHistory (after_call (transferWithPrice sender now from to assetId price s) s)
            = transferHistory s)"
proof (intro conjI impI)
  assume h: "transferWithPrice sender now from to assetId price s = Inr s'"
  from transferWithPrice_history(2) [OF h] show "from = internal_ownerOf assetId s"
    by (simp add: internal_ownerOf_def)
  from transferWithPrice_history [OF h]
  show "rec_from (last (transferHistory s' assetId)) = internal_ownerOf assetId s"
    by (simp add: internal_ownerOf_def)
next
  assume n: "from \<noteq> internal_ownerOf assetId s"
  from transferWithPrice_wrong_from [OF n]
  show "\<exists>e. transferWithPrice sender now from to assetId price s = Inl e" .
  then show "transferHistory (after_call (transferWithPrice sender now from to assetId price s) s)
            = transferHistory s"
    by (auto simp: after_call_def)
qed

theorem transferWithPrice_record_from_owner_witness:
  "(\<exists>s'. transferWithPrice 2 20 2 3 0 50 active_ledger = Inr s'
       \<and> rec_from (last (transferHistory s' 0)) = 2)
   \<and> internal_ownerOf 0 active_ledger = 2
   \<and> (\<exists>e. transferWithPrice 2 20 3 3 0 50 active_ledger = Inl e)
   \<and> transferHistory (after_call (transferWithPrice 2 20 3 3 0 50 active_ledger) active_ledger)
       = transferHistory active_ledger"
proof -
  have o: "internal_ownerOf 0 active_ledger = 2"
    by (simp add: active_ledger_eq internal_ownerOf_def)
  have "\<exists>s'. transferWithPrice 2 20 2 3 0 50 active_ledger = Inr s'"
    by (simp add: active_ledger_eq contract_defs Let_def)
  then obtain s' where h: "transferWithPrice 2 20 2 3 0 50 active_ledger = Inr s'" ..
  with transferWithPrice_record_from_owner [of 2 20 2 3 0 50 active_ledger s'] o
  have a: "rec_from (last (transferHistory s' 0)) = 2" by simp
  have n: "(3::nat) \<noteq> internal_ownerOf 0 active_ledger" using o by simp
  from transferWithPrice_record_from_owner [of 2 20 3 3 0 50 active_ledger] n
  have b: "(\<exists>e. transferWithPrice 2 20 3 3 0 50 active_ledger = Inl e)
    \<and> transferHistory (after_call (transferWithPrice 2 20 3 3 0 50 active_ledger) active_ledger)
       = transferHistory active_ledger" by blast
  from h a o b show ?thesis by blast
qed

subsection \<open>The gates\<close>

text \<open>
  C3. The claim is that a paused contract refuses every transfer with \<^verbatim>\<open>Paused\<close>. The
  contract inherits ERC721, AccessControl and ReentrancyGuard only (line 8): it has no
  \<^verbatim>\<open>pause\<close> or \<^verbatim>\<open>unpause\<close> function and no pause flag in its storage, and neither
  \<^verbatim>\<open>transferWithPrice\<close> nor \<^verbatim>\<open>_update\<close> reads one. On the ledger of the repository's
  pause tests, the plain and the priced transfer from account 2 to account 3 both
  succeed, and by \<open>transfer_gate_sufficient\<close> so does every transfer whose other gate
  conditions hold.
\<close>

theorem no_circuit_breaker:
  "(\<exists>s'. transferFrom 2 20 2 3 0 active_ledger = Inr s' \<and> internal_ownerOf 0 s' = 3)
   \<and> (\<exists>s'. transferWithPrice 2 20 2 3 0 50 active_ledger = Inr s' \<and> internal_ownerOf 0 s' = 3)"
  by (simp add: active_ledger_eq contract_defs Let_def)

text \<open>
  C4. The claim is that \<^verbatim>\<open>batchVerifyUsers\<close> reverts on an empty list and on a list of
  more than 100 accounts. The function has the role check and the loop only (lines
  107-115): called by the deployer, the empty list returns with the storage unchanged,
  and a list of 101 accounts returns with all of them verified.
\<close>

theorem batch_bounds_not_enforced:
  "hasRole COMPLIANCE_ROLE 1 (constructor 1)
   \<and> batchVerifyUsers 1 [] True (constructor 1) = Inr (constructor 1)
   \<and> length [100..<201] = 101
   \<and> (\<exists>s'. batchVerifyUsers 1 [100..<201] True (constructor 1) = Inr s'
         \<and> verifiedUsers s' 100 \<and> verifiedUsers s' 200)"
  using batchVerifyUsers_loop_fields [of "[100..<201]" True "constructor 1"]
  by (simp add: batchVerifyUsers_def hasRole_def constructor_eq)

text \<open>
  C5, as claimed: registering to, or transferring to, an account that is not verified
  always fails with \<^verbatim>\<open>RecipientNotVerified\<close>. It always fails, but not always with that
  error: a registration by an account without the Minter role fails the role check, a
  plain transfer of an asset that is not compliant fails the compliance check, and a
  priced transfer by an account that is not authorised fails the authorisation check,
  each before the recipient is looked at.
\<close>

theorem unverified_recipient_other_error:
  "\<not> verifiedUsers (constructor 1) 3
   \<and> registerAsset 2 12 (receiver_hook 12 (Answer Accepts) 3) 3 ''ipfs://1'' ''property'' 100
         (constructor 1)
       = Inl (AccessControlUnauthorizedAccount 2 MINTER_ROLE)
   \<and> \<not> verifiedUsers pending_ledger 4
   \<and> internal_ownerOf 0 pending_ledger = 2
   \<and> transferFrom 2 20 2 4 0 pending_ledger = Inl (Require ''Asset not compliant'')
   \<and> \<not> verifiedUsers active_ledger 4
   \<and> transferWithPrice 3 20 2 4 0 50 active_ledger = Inl (Require ''Not authorized'')"
  by (simp add: constructor_eq pending_ledger_eq active_ledger_eq contract_defs Let_def)

text \<open>
  C5, amended. For a recipient that is not verified: \<^verbatim>\<open>registerAsset\<close> always reverts,
  with \<^verbatim>\<open>Recipient not verified\<close> when the caller holds the Minter role;
  \<^verbatim>\<open>transferWithPrice\<close> always reverts, with \<^verbatim>\<open>Recipient not verified\<close> when the guard is
  free and the caller is authorised for the asset; \<^verbatim>\<open>transferFrom\<close> and
  \<^verbatim>\<open>safeTransferFrom\<close> of an existing asset always revert, with
  \<^verbatim>\<open>Recipient not verified\<close> when the recipient is not the zero address and the asset is
  compliant and Active. This holds whatever the recipient's hook would do: no call
  reaches it. In every case the storage after the call, and with it every transfer
  history, is the storage before it.
\<close>

theorem unverified_recipient_refused:
  assumes "\<not> verifiedUsers s to"
  shows "(\<exists>e. registerAsset sender now ext to uri atype val s = Inl e)
   \<and> (hasRole MINTER_ROLE sender s \<longrightarrow>
        registerAsset sender now ext to uri atype val s = Inl (Require ''Recipient not verified''))
   \<and> run [\<lparr>tx_sender = sender, tx_now = now, tx_hook = h,
            tx_call = RegisterAsset to uri atype val\<rparr>] s = ([], s)
   \<and> (\<exists>e. transferWithPrice sender now from to assetId price s = Inl e)
   \<and> (reentrancy_status s = NOT_ENTERED
        \<and> internal_isAuthorized (internal_ownerOf assetId s) sender assetId s \<longrightarrow>
        transferWithPrice sender now from to assetId price s = Inl (Require ''Recipient not verified''))
   \<and> transferHistory (after_call (transferWithPrice sender now from to assetId price s) s)
        = transferHistory s
   \<and> (internal_ownerOf assetId s \<noteq> 0 \<longrightarrow>
        (\<exists>e. transferFrom sender now from to assetId s = Inl e)
        \<and> (\<exists>e. safeTransferFrom sender now ext from to assetId s = Inl e)
        \<and> transferHistory (after_call (transferFrom sender now from to assetId s) s)
             = transferHistory s
        \<and> transferHistory (after_call (safeTransferFrom sender now ext from to assetId s) s)
             = transferHistory s)
   \<and> (internal_ownerOf assetId s \<noteq> 0 \<and> to \<noteq> 0 \<and> isCompliant (assetDetails s assetId)
        \<and> status (assetDetails s assetId) = Active \<longrightarrow>
        transferFrom sender now from to assetId s = Inl (Require ''Recipient not verified'')
        \<and> safeTransferFrom sender now ext from to assetId s
             = Inl (Require ''Recipient not verified''))"
proof -
  note r = registerAsset_unverified [OF assms, of sender now _ uri atype val]
  note w = transferWithPrice_unverified [OF assms, of sender now "from" assetId price]
  have t: "internal_ownerOf assetId s \<noteq> 0 \<Longrightarrow>
     transferFrom sender now from to assetId s =
     (if to = 0 then Inl (ERC721InvalidReceiver 0)
      else if \<not> isCompliant (assetDetails s assetId) then Inl (Require ''Asset not compliant'')
      else if status (assetDetails s assetId) \<noteq> Active then Inl (Require ''Asset not active'')
      else Inl (Require ''Recipient not verified''))"
    using transferFrom_unverified [OF assms] by simp
  show ?thesis
    by (intro conjI impI)
       (auto simp: r w t exec_def dispatch_def after_call_def safeTransferFrom_def split: if_splits)
qed

theorem unverified_recipient_refused_witness:
  "registerAsset 1 15 (receiver_hook 15 (Answer Accepts) 4) 4 ''ipfs://2'' ''share'' 200 active_ledger
      = Inl (Require ''Recipient not verified'')
   \<and> transferWithPrice 2 20 2 4 0 50 active_ledger = Inl (Require ''Recipient not verified'')
   \<and> transferFrom 2 20 2 4 0 active_ledger = Inl (Require ''Recipient not verified'')
   \<and> safeTransferFrom 2 20 (receiver_hook 20 (Answer Accepts) 4) 2 4 0 active_ledger = Inl (Require ''Recipient not verified'')
   \<and> transferHistory (after_call (transferFrom 2 20 2 4 0 active_ledger) active_ledger)
        = transferHistory active_ledger"
proof -
  have u: "\<not> verifiedUsers active_ledger 4" by (simp add: active_ledger_eq)
  have m: "hasRole MINTER_ROLE 1 active_ledger" by (simp add: active_ledger_eq hasRole_def)
  have a: "reentrancy_status active_ledger = NOT_ENTERED
      \<and> internal_isAuthorized (internal_ownerOf 0 active_ledger) 2 0 active_ledger"
    by (simp add: active_ledger_eq internal_isAuthorized_def internal_ownerOf_def)
  have g: "internal_ownerOf 0 active_ledger \<noteq> 0 \<and> (4::nat) \<noteq> 0
      \<and> isCompliant (assetDetails active_ledger 0) \<and> status (assetDetails active_ledger 0) = Active"
    by (simp add: active_ledger_eq internal_ownerOf_def)
  from unverified_recipient_refused [OF u, of 1 15 "receiver_hook 15 (Answer Accepts) 4"
      "''ipfs://2''" "''share''" 200 "Answer Accepts" 2 0 50] m
  have 1: "registerAsset 1 15 (receiver_hook 15 (Answer Accepts) 4) 4 ''ipfs://2'' ''share'' 200 active_ledger
      = Inl (Require ''Recipient not verified'')" by blast
  from unverified_recipient_refused [OF u, of 2 20 "receiver_hook 20 (Answer Accepts) 4"
      "''ipfs://2''" "''share''" 200 "Answer Accepts" 2 0 50] a g
  have 2: "transferWithPrice 2 20 2 4 0 50 active_ledger = Inl (Require ''Recipient not verified'')
   \<and> transferFrom 2 20 2 4 0 active_ledger = Inl (Require ''Recipient not verified'')
   \<and> safeTransferFrom 2 20 (receiver_hook 20 (Answer Accepts) 4) 2 4 0 active_ledger = Inl (Require ''Recipient not verified'')
   \<and> transferHistory (after_call (transferFrom 2 20 2 4 0 active_ledger) active_ledger)
        = transferHistory active_ledger" by blast
  from 1 2 show ?thesis by blast
qed

text \<open>
  C6. For an asset that exists and is not compliant, or not Active, every transfer
  reverts: \<^verbatim>\<open>transferFrom\<close>, \<^verbatim>\<open>safeTransferFrom\<close> (whatever the recipient's hook would
  do) and \<^verbatim>\<open>transferWithPrice\<close>, whoever calls and whatever the arguments. The owner
  after the call is the owner before it.
\<close>

theorem compliance_gate_blocks_transfers:
  assumes "internal_ownerOf assetId s \<noteq> 0"
    and "\<not> isCompliant (assetDetails s assetId) \<or> status (assetDetails s assetId) \<noteq> Active"
  shows "(\<exists>e. transferFrom sender now from to assetId s = Inl e)
       \<and> (\<exists>e. safeTransferFrom sender now ext from to assetId s = Inl e)
       \<and> (\<exists>e. transferWithPrice sender now from to assetId price s = Inl e)
       \<and> internal_ownerOf assetId (after_call (transferFrom sender now from to assetId s) s)
           = internal_ownerOf assetId s
       \<and> internal_ownerOf assetId (after_call (safeTransferFrom sender now ext from to assetId s) s)
           = internal_ownerOf assetId s
       \<and> internal_ownerOf assetId (after_call (transferWithPrice sender now from to assetId price s) s)
           = internal_ownerOf assetId s"
proof -
  have a: "\<exists>e. transferFrom sender now from to assetId s = Inl e"
    using assms transferFrom_gate by (intro not_Inr_is_Inl) blast
  from a have b: "\<exists>e. safeTransferFrom sender now ext from to assetId s = Inl e"
    by (auto simp: safeTransferFrom_def)
  have c: "\<exists>e. transferWithPrice sender now from to assetId price s = Inl e"
    using assms transferWithPrice_gate by (intro not_Inr_is_Inl) blast
  from a b c show ?thesis by (auto simp: after_call_def)
qed

theorem compliance_gate_blocks_transfers_witness:
  "internal_ownerOf 0 pending_ledger = 2
   \<and> (\<exists>e. transferFrom 2 20 2 3 0 pending_ledger = Inl e)
   \<and> (\<exists>e. safeTransferFrom 2 20 (receiver_hook 20 (Answer Accepts) 3) 2 3 0 pending_ledger = Inl e)
   \<and> (\<exists>e. transferWithPrice 2 20 2 3 0 50 pending_ledger = Inl e)
   \<and> internal_ownerOf 0 (after_call (transferWithPrice 2 20 2 3 0 50 pending_ledger) pending_ledger) = 2"
proof -
  have o: "internal_ownerOf 0 pending_ledger = 2"
    by (simp add: pending_ledger_eq internal_ownerOf_def)
  have n: "\<not> isCompliant (assetDetails pending_ledger 0) \<or> status (assetDetails pending_ledger 0) \<noteq> Active"
    by (simp add: pending_ledger_eq)
  from o have o': "internal_ownerOf 0 pending_ledger \<noteq> 0" by simp
  from compliance_gate_blocks_transfers [OF o' n, of 2 20 2 3 "receiver_hook 20 (Answer Accepts) 3" 50] o show ?thesis
    by simp
qed

text \<open>
  C8. Once \<^verbatim>\<open>transferWithPrice\<close> has passed \<^verbatim>\<open>_nonReentrantBefore\<close>, the guard is
  \<open>ENTERED\<close> in every storage of the execution of its body: the storage the body
  starts from, the storage after the push of the record, and the storage the body
  ends with. On each of them a nested call of \<^verbatim>\<open>transferWithPrice\<close>, with any caller and
  any arguments, reverts with \<^verbatim>\<open>ReentrancyGuardReentrantCall\<close>.
\<close>

theorem transferWithPrice_rejects_reentry:
  assumes "nonReentrantBefore s = Inr s1"
    and "x = s1
       \<or> x = push_priced_record now from to assetId price s1
       \<or> transferWithPrice_body sender now from to assetId price s1 = Inr x"
  shows "reentrancy_status x = ENTERED
       \<and> transferWithPrice sender' now' from' to' assetId' price' x = Inl ReentrancyGuardReentrantCall"
proof -
  from assms(1) have e: "reentrancy_status s1 = ENTERED"
    by (auto simp: nonReentrantBefore_def split: if_splits)
  have "reentrancy_status x = ENTERED"
  proof -
    { assume b: "transferWithPrice_body sender now from to assetId price s1 = Inr x"
      then have t: "internal_transfer now from to assetId
          (push_priced_record now from to assetId price s1) = Inr x"
        by (auto simp: transferWithPrice_body_def split: if_splits)
      from internal_transfer_Inr [OF t] have
        "internal_update now to assetId 0 (push_priced_record now from to assetId price s1) = Inr (from, x)"
        by simp
      from internal_update_Inr [OF this] e have "reentrancy_status x = ENTERED"
        by (simp add: push_priced_record_def) }
    with assms(2) e show ?thesis by (auto simp: push_priced_record_def)
  qed
  then show ?thesis by (simp add: transferWithPrice_def nonReentrantBefore_def)
qed

theorem transferWithPrice_rejects_reentry_witness:
  "\<exists>s1 x. nonReentrantBefore active_ledger = Inr s1
     \<and> transferWithPrice_body 2 20 2 3 0 50 s1 = Inr x
     \<and> reentrancy_status s1 = ENTERED \<and> reentrancy_status x = ENTERED
     \<and> transferWithPrice 3 20 3 2 0 0 s1 = Inl ReentrancyGuardReentrantCall
     \<and> transferWithPrice 3 20 3 2 0 0 x = Inl ReentrancyGuardReentrantCall"
proof -
  have "\<exists>s1. nonReentrantBefore active_ledger = Inr s1"
    by (simp add: nonReentrantBefore_def active_ledger_eq)
  then obtain s1 where a: "nonReentrantBefore active_ledger = Inr s1" ..
  then have s1: "s1 = active_ledger\<lparr>reentrancy_status := ENTERED\<rparr>"
    by (auto simp: nonReentrantBefore_def split: if_splits)
  have "\<exists>x. transferWithPrice_body 2 20 2 3 0 50 s1 = Inr x"
    unfolding s1 by (simp add: active_ledger_eq contract_defs Let_def)
  then obtain x where b: "transferWithPrice_body 2 20 2 3 0 50 s1 = Inr x" ..
  from transferWithPrice_rejects_reentry [OF a, of s1 20 2 3 0 50 2 3 20 3 2 0 0]
  have c: "reentrancy_status s1 = ENTERED
    \<and> transferWithPrice 3 20 3 2 0 0 s1 = Inl ReentrancyGuardReentrantCall" by simp
  from transferWithPrice_rejects_reentry [OF a, of x 20 2 3 0 50 2 3 20 3 2 0 0] b
  have d: "reentrancy_status x = ENTERED
    \<and> transferWithPrice 3 20 3 2 0 0 x = Inl ReentrancyGuardReentrantCall" by simp
  from a b c d show ?thesis by blast
qed

subsection \<open>Identifiers\<close>

text \<open>
  C7. Take any sequence of transactions on a freshly deployed contract, with any hooks
  of the recipients, which may call back into the contract, register from inside a
  registration, and nest to any depth (no caller is the zero address, which neither
  sends a transaction nor is a contract). The identifiers of the successful
  registrations, in the order in which the registrations were assigned them, nested
  ones included, are \<open>0, 1, 2, ...\<close>: each is greater than all assigned before it and
  none occurs twice. The identifiers that the transactions of the sequence returned are
  among them and increase strictly from one registration to the next. On every
  identifier that no registration was assigned, \<^verbatim>\<open>getAssetInfo\<close> reverts with
  \<^verbatim>\<open>Asset does not exist\<close>.
\<close>

theorem registration_ids_sequential:
  assumes "\<forall>t\<in>set txs. tx_sender t \<noteq> 0 \<and> nonzero_senders (tx_hook t)"
    and "run txs (constructor d) = (ids, s)"
  shows "assigned s = [0..<length (assigned s)]
     \<and> sorted_wrt (<) (assigned s) \<and> distinct (assigned s)
     \<and> sorted_wrt (<) ids \<and> set ids \<subseteq> set (assigned s)
     \<and> (\<forall>assetId. assetId \<notin> set (assigned s) \<longrightarrow>
          getAssetInfo assetId s = Inl (Require ''Asset does not exist''))"
proof -
  from run_registrations [OF wf_constructor assms(1), of d] assms(2)
  have w: "wf_ledger s" and so: "sorted_wrt (<) ids"
    and b: "\<forall>i\<in>set ids. i < nextTokenId s"
    by simp_all
  from w have a: "assigned s = [0..<nextTokenId s]" by (simp add: wf_ledger_def)
  have "getAssetInfo assetId s = Inl (Require ''Asset does not exist'')"
    if "assetId \<notin> set (assigned s)" for assetId
  proof -
    from that a have "\<not> assetId < nextTokenId s" by simp
    with w have "owners s assetId = 0" by (auto simp: wf_ledger_def)
    then show ?thesis by (simp add: getAssetInfo_def internal_ownerOf_def)
  qed
  moreover from a have "assigned s = [0..<length (assigned s)]" by simp
  moreover from a have "sorted_wrt (<) (assigned s)" "distinct (assigned s)" by simp_all
  moreover from a b have "set ids \<subseteq> set (assigned s)" by auto
  ultimately show ?thesis using so by blast
qed

theorem registration_ids_sequential_witness:
  "fst (run callback_txs (constructor 1)) = [0, 2]
   \<and> assigned (snd (run callback_txs (constructor 1))) = [0, 1, 2]
   \<and> getAssetInfo 1 (snd (run callback_txs (constructor 1)))
       = Inr (''ipfs://b'', False, Pending, 2, 12, ''share'', 5)
   \<and> getAssetInfo 3 (snd (run callback_txs (constructor 1)))
       = Inl (Require ''Asset does not exist'')"
proof -
  have b: "\<forall>t\<in>set callback_txs. tx_sender t \<noteq> 0 \<and> nonzero_senders (tx_hook t)"
    by (simp add: callback_txs_def tx_def)
  have e: "fst (run callback_txs (constructor 1)) = [0, 2]"
    "assigned (snd (run callback_txs (constructor 1))) = [0, 1, 2]"
    "getAssetInfo 1 (snd (run callback_txs (constructor 1)))
       = Inr (''ipfs://b'', False, Pending, 2, 12, ''share'', 5)"
    by (simp_all add: callback_txs_def contract_defs Let_def)
  have r: "run callback_txs (constructor 1)
      = (fst (run callback_txs (constructor 1)), snd (run callback_txs (constructor 1)))"
    by simp
  from registration_ids_sequential [OF b r] e show ?thesis by simp
qed

subsection \<open>Construction\<close>

text \<open>
  C10. After construction the deployer, and no other account, is verified; the deployer
  holds every role; and a deployer that is not the zero address can register an asset to
  itself at once (the recipient hook accepting): the registration returns identifier 0
  with the deployer as owner.
\<close>

theorem constructor_verifies_deployer_only:
  "verifiedUsers (constructor d) a = (a = d)
   \<and> (\<forall>r. hasRole r d (constructor d))
   \<and> (d \<noteq> 0 \<longrightarrow>
        (\<exists>s'. registerAsset d now (receiver_hook now (Answer Accepts) d) d uri atype val (constructor d)
               = Inr (0, s')
           \<and> internal_ownerOf 0 s' = d))"
proof (intro conjI allI impI)
  show "verifiedUsers (constructor d) a = (a = d)" by (simp add: constructor_eq)
  show "hasRole r d (constructor d)" for r
    by (cases r) (simp_all add: constructor_eq hasRole_def)
  assume "d \<noteq> 0"
  then show "\<exists>s'. registerAsset d now (receiver_hook now (Answer Accepts) d) d uri atype val (constructor d)
               = Inr (0, s')
           \<and> internal_ownerOf 0 s' = d"
    by (simp add: constructor_eq contract_defs Let_def)
qed

theorem constructor_verifies_deployer_only_witness:
  "verifiedUsers (constructor 1) 1 \<and> \<not> verifiedUsers (constructor 1) 2
   \<and> hasRole MINTER_ROLE 1 (constructor 1)
   \<and> (\<exists>s'. registerAsset 1 12 (receiver_hook 12 (Answer Accepts) 1) 1 ''ipfs://1'' ''property'' 100
            (constructor 1) = Inr (0, s')
           \<and> internal_ownerOf 0 s' = 1)"
  using constructor_verifies_deployer_only [of 1 1]
    constructor_verifies_deployer_only [of 1 2]
    constructor_verifies_deployer_only [of 1 _ 12 "''ipfs://1''" "''property''" 100]
  by simp

end
